theory Spec2Isabelle
  imports Complex_Main "HOL-Library.Sublist" "HOL-Library.Multiset"
begin

text \<open>
  A model of \<open>hotel_dashboard.py\<close>: \<open>load_insee_data\<close> (lines 21-83),
  \<open>process_data\<close> (lines 101-107) and the seasonal decomposition blocks of
  \<open>main\<close> (lines 352-434 and 437-517). The functions of pandas, NumPy and
  statsmodels that these lines call are modelled by what they compute on the arguments
  the source gives them; the download, the ZIP container and the CSV reader are inputs.
  Everything drawn on the page (charts, metrics, the monthly box plots) is left out.
\<close>

section \<open>Strings\<close>

text \<open>
  Python strings are modelled as \<^typ>\<open>string\<close>, a character being a code point
  below 256; letters and digits are interpreted in ASCII only (\<open>str.lower\<close> leaves
  other letters alone, which does not change where the ASCII words searched for below
  occur).
  \<open>s.replace(a, '')\<close> and \<open>s.replace(a, b)\<close> are used by the source with
  one-character arguments only.
\<close>

definition lower_char :: "char \<Rightarrow> char" where
  "lower_char c =
     (case map_of (zip ''ABCDEFGHIJKLMNOPQRSTUVWXYZ'' ''abcdefghijklmnopqrstuvwxyz'') c of
        Some l \<Rightarrow> l
      | None \<Rightarrow> c)"

definition lower :: "string \<Rightarrow> string" where
  "lower s = map lower_char s"

definition remove_char :: "char \<Rightarrow> string \<Rightarrow> string" where
  "remove_char a s = filter (\<lambda>c. c \<noteq> a) s"

definition replace_char :: "char \<Rightarrow> char \<Rightarrow> string \<Rightarrow> string" where
  "replace_char a b s = map (\<lambda>c. if c = a then b else c) s"

definition digit_val :: "char \<Rightarrow> int option" where
  "digit_val c = map_of (zip ''0123456789'' [0, 1, 2, 3, 4, 5, 6, 7, 8, 9]) c"

definition is_digit :: "char \<Rightarrow> bool" where
  "is_digit c = (digit_val c \<noteq> None)"

definition digits_val :: "string \<Rightarrow> int" where
  "digits_val s = foldl (\<lambda>n c. 10 * n + (case digit_val c of Some d \<Rightarrow> d | None \<Rightarrow> 0)) 0 s"

definition is_number :: "string \<Rightarrow> bool" where
  "is_number s = (s \<noteq> [] \<and> list_all is_digit s)"

definition is_space :: "char \<Rightarrow> bool" where
  "is_space c = (c \<in> set [CHR '' '', CHR 0x09, CHR 0x0A, CHR 0x0B, CHR 0x0C, CHR 0x0D,
                           CHR 0x1C, CHR 0x1D, CHR 0x1E, CHR 0x1F, CHR 0x85, CHR 0xA0])"

definition strip :: "string \<Rightarrow> string" where
  "strip s = rev (dropWhile is_space (rev (dropWhile is_space s)))"

fun str_nat_aux :: "nat \<Rightarrow> nat \<Rightarrow> string \<Rightarrow> string" where
  "str_nat_aux 0 n acc = acc"
| "str_nat_aux (Suc fuel) n acc =
     (let acc' = (''0123456789'' ! (n mod 10)) # acc
      in if n < 10 then acc' else str_nat_aux fuel (n div 10) acc')"

definition str_nat :: "nat \<Rightarrow> string" where
  "str_nat n = str_nat_aux (Suc n) n []"

section \<open>Floats: \<open>float(s)\<close>\<close>

text \<open>
  A Python float is modelled by the number its decimal text denotes, a rational, or
  by one of the three special values. A literal at or beyond \<open>2^1024 - 2^970\<close>, half
  a step above the largest double, is read as infinity, as binary64 rounds it. The
  rounding of every other number to the nearest double is not modelled, and arithmetic
  below is exact: it neither rounds nor overflows.

  \<open>py_float\<close> is \<open>float(s)\<close> on a \<open>str\<close>: surrounding white space
  (\<open>str.isspace\<close>, here for code points below 256) is stripped; an optional sign;
  then \<open>inf\<close>, \<open>infinity\<close> or \<open>nan\<close> in any case, or a decimal literal with
  an optional fraction and an optional exponent, in which a single underscore may stand
  between two digits. \<open>None\<close> is the \<open>ValueError\<close> that \<open>float\<close> raises on
  any other text.
\<close>

datatype pyfloat = Fin rat | PInf | NInf | NaN

fun underscores_ok :: "char option \<Rightarrow> string \<Rightarrow> bool" where
  "underscores_ok prev [] = True"
| "underscores_ok prev (c # s) =
     ((if c = CHR ''_''
       then (case prev of Some a \<Rightarrow> is_digit a | None \<Rightarrow> False) \<and>
            (case s of d # _ \<Rightarrow> is_digit d | [] \<Rightarrow> False)
       else True) \<and>
      underscores_ok (Some c) s)"

definition is_e :: "char \<Rightarrow> bool" where
  "is_e c = (c = CHR ''e'' \<or> c = CHR ''E'')"

definition split_sign :: "string \<Rightarrow> bool \<times> string" where
  "split_sign s =
     (case s of
        c # t \<Rightarrow> (if c = CHR ''-'' then (True, t) else if c = CHR ''+'' then (False, t)
                   else (False, s))
      | [] \<Rightarrow> (False, s))"

definition parse_mantissa :: "string \<Rightarrow> (int \<times> nat) option" where
  "parse_mantissa m =
     (let ip = takeWhile (\<lambda>c. c \<noteq> CHR ''.'') m;
          fp = drop 1 (dropWhile (\<lambda>c. c \<noteq> CHR ''.'') m)
      in if list_all is_digit ip \<and> list_all is_digit fp \<and> (ip \<noteq> [] \<or> fp \<noteq> [])
         then Some (digits_val (ip @ fp), length fp) else None)"

definition parse_exponent :: "string \<Rightarrow> int option" where
  "parse_exponent e =
     (case e of
        [] \<Rightarrow> Some 0
      | _ # t \<Rightarrow>
          (let (neg, ds) = split_sign t
           in if is_number ds
              then Some (if neg then - digits_val ds else digits_val ds)
              else None))"

definition scale10 :: "int \<Rightarrow> int \<Rightarrow> rat" where
  "scale10 n e = (if 0 \<le> e then of_int n * 10 ^ nat e else of_int n / 10 ^ nat (- e))"

definition parse_decimal :: "string \<Rightarrow> rat option" where
  "parse_decimal body =
     (if \<not> underscores_ok None body then None
      else
        (let t = remove_char (CHR ''_'') body;
             m = takeWhile (\<lambda>c. \<not> is_e c) t;
             e = dropWhile (\<lambda>c. \<not> is_e c) t
         in case (parse_mantissa m, parse_exponent e) of
              (Some (n, k), Some x) \<Rightarrow> Some (scale10 n (x - int k))
            | _ \<Rightarrow> None))"

text \<open>The number \<open>2^1024 - 2^970\<close>, written out (see \<open>overflow_bound_power\<close>).\<close>

definition overflow_bound :: rat where
  "overflow_bound =
     179769313486231580793728971405303415079934132710037826936173778980444968292764750946649017977587207096330286416692887910946555547851940402630657488671505820681908902000708383676273854845817711531764475730270069855571366959622842914819860834936475292719074168444365510704342711559699508093042880177904174497792"

definition round_float :: "rat \<Rightarrow> pyfloat" where
  "round_float r =
     (if overflow_bound \<le> r then PInf else if r \<le> - overflow_bound then NInf else Fin r)"

definition py_float :: "string \<Rightarrow> pyfloat option" where
  "py_float s =
     (let (neg, body) = split_sign (strip s);
          word = lower body
      in if word = ''inf'' \<or> word = ''infinity'' then Some (if neg then NInf else PInf)
         else if word = ''nan'' then Some NaN
         else (case parse_decimal body of
                 Some r \<Rightarrow> Some (round_float (if neg then - r else r))
               | None \<Rightarrow> None))"

section \<open>Dates: \<open>pd.to_datetime(..., format='%Y-%m', errors='coerce')\<close>\<close>

text \<open>
  A text is a date when it is four digits, a hyphen and a month of one or two digits
  between 1 and 12, with nothing before or after; the year is not bounded further
  (pandas 3 chooses a resolution that holds it). With \<open>errors='coerce'\<close> every other
  text becomes \<open>NaT\<close>, here \<open>None\<close>. A month is the pair (year, month of the
  year).

  Two texts are outside this model: pandas reads the words \<open>now\<close> and \<open>today\<close> as
  the time of the call, whatever the format. \<open>clock_word\<close> recognises them, and the
  theorems that speak of every table assume that no date cell holds one.
\<close>

type_synonym month = "int \<times> int"

definition ordinal :: "month \<Rightarrow> int" where
  "ordinal ym = 12 * fst ym + (snd ym - 1)"

definition to_datetime :: "string \<Rightarrow> month option" where
  "to_datetime s =
     (let y = take 4 s; m = drop 5 s
      in if length y = 4 \<and> list_all is_digit y \<and> take 1 (drop 4 s) = ''-'' \<and>
            is_number m \<and> length m \<le> 2 \<and> 1 \<le> digits_val m \<and> digits_val m \<le> 12
         then Some (digits_val y, digits_val m) else None)"

definition clock_word :: "string \<Rightarrow> bool" where
  "clock_word s = (s = ''now'' \<or> s = ''today'')"

section \<open>Data frames\<close>

text \<open>
  \<open>pd.read_csv(csv_file, sep=';', skiprows=4, header=None)\<close> is taken as given: its
  result is a \<open>raw_frame\<close>, a table of \<open>ncols\<close> columns labelled 0, 1, 2, ... whose
  cells are the text of a field or are missing (\<open>None\<close>, pandas' NaN). A field that
  read_csv itself turned into a number is represented by its text. read_csv fills a
  short row with missing cells, which is what \<open>cell_at\<close> reads beyond a row's end.

  A \<open>frame\<close> is what \<open>load_insee_data\<close> returns: column labels and rows of
  cells. The row labels (the index) are not modelled: nothing below reads them.
\<close>

record raw_frame =
  ncols :: nat
  raw_rows :: "string option list list"

datatype colname = Pos nat | Name string

datatype cell = Raw "string option" | Val pyfloat | Ts month | NaT | Str string

record frame =
  columns :: "colname list"
  rows :: "cell list list"

definition cell_at :: "string option list \<Rightarrow> nat \<Rightarrow> string option" where
  "cell_at r i = (if i < length r then r ! i else None)"

text \<open>
  \<open>astype(str)\<close> and \<open>str.replace\<close> leave a missing cell missing (the string type
  of pandas 3 keeps its missing values); \<open>astype(float)\<close> then makes it NaN and
  \<open>to_datetime\<close> makes it \<open>NaT\<close>.

  Line 62, on one cell:
  \<open>.astype(str).str.replace('"', '').str.replace(',', '.').astype(float)\<close>.
  \<open>None\<close> is the \<open>ValueError\<close> of \<open>astype(float)\<close>.
\<close>

definition clean_value :: "string option \<Rightarrow> pyfloat option" where
  "clean_value c =
     (case c of
        None \<Rightarrow> Some NaN
      | Some s \<Rightarrow> py_float (replace_char (CHR '','') (CHR ''.'') (remove_char (CHR 0x22) s)))"

text \<open>Lines 65-66 on one cell: quotes removed, then the date or \<open>NaT\<close>.\<close>

definition clean_date :: "string option \<Rightarrow> cell" where
  "clean_date c =
     (case c of
        None \<Rightarrow> NaT
      | Some s \<Rightarrow>
          (case to_datetime (remove_char (CHR 0x22) s) of
             Some ym \<Rightarrow> Ts ym
           | None \<Rightarrow> NaT))"

text \<open>Line 69 on one cell: a status text without its quotes, or a missing cell.\<close>

definition clean_status :: "string option \<Rightarrow> cell" where
  "clean_status c =
     (case c of
        None \<Rightarrow> Raw None
      | Some s \<Rightarrow> Str (remove_char (CHR 0x22) s))"

definition isna :: "cell \<Rightarrow> bool" where
  "isna c = (c = NaT \<or> c = Val NaN \<or> c = Raw None)"

definition date_key :: "cell list \<Rightarrow> int" where
  "date_key r = (case r of Ts ym # _ \<Rightarrow> ordinal ym | _ \<Rightarrow> 0)"

text \<open>
  The row after lines 62-69, given the float of its value cell: the date, the value,
  the status, and the other columns as they were read.
\<close>

definition clean_row :: "nat \<Rightarrow> string option list \<Rightarrow> pyfloat \<Rightarrow> cell list" where
  "clean_row n r v =
     [clean_date (cell_at r 0), Val v, clean_status (cell_at r 2)] @
     map (\<lambda>i. Raw (cell_at r i)) [3..<n]"

text \<open>Line 72: \<open>df.dropna(subset=['Date', value_col])\<close>.\<close>

definition dropna :: "cell list list \<Rightarrow> cell list list" where
  "dropna rs = filter (\<lambda>r. \<not> isna (r ! 0) \<and> \<not> isna (r ! 1)) rs"

text \<open>
  Line 75: \<open>df.sort_values('Date')\<close>. pandas sorts with quicksort by default, which
  does not fix the order of rows with equal dates; \<open>sort_key\<close> is one such sort (it
  keeps them in input order), and the theorems below speak only of the rows present and
  of their being sorted, which hold of every sort.
\<close>

definition sort_values :: "cell list list \<Rightarrow> cell list list" where
  "sort_values rs = sort_key date_key rs"

datatype exc = RequestError | ReadError | ValueError | KeyError

text \<open>
  Lines 52-79. The only statement of the block that can raise is \<open>astype(float)\<close>,
  which raises when any cell of the value column is not a float; the exception leaves
  the function through its \<open>except Exception\<close>.
\<close>

definition value_col :: "string \<Rightarrow> string" where
  "value_col region_name =
     (if sublist ''Hotels'' region_name then ''Hotel_Count'' else ''Occupancy_Rate'')"

definition clean_frame :: "raw_frame \<Rightarrow> string \<Rightarrow> exc + frame" where
  "clean_frame df region_name =
     (if 3 \<le> ncols df then
        (case those (map (\<lambda>r. clean_value (cell_at r 1)) (raw_rows df)) of
           None \<Rightarrow> Inl ValueError
         | Some vals \<Rightarrow>
             Inr \<lparr>columns =
                    [Name ''Date'', Name (value_col region_name), Name ''Status''] @
                    map (\<lambda>i. Name (''Col_'' @ str_nat i)) [3..<ncols df] @
                    [Name ''Region''],
                  rows =
                    map (\<lambda>r. r @ [Str region_name])
                      (sort_values (dropna (map2 (clean_row (ncols df)) (raw_rows df) vals)))\<rparr>)
      else
        Inr \<lparr>columns = map Pos [0..<ncols df] @ [Name ''Region''],
             rows = map (\<lambda>r. map Raw r @ [Str region_name]) (raw_rows df)\<rparr>)"

section \<open>\<open>load_insee_data\<close>\<close>

text \<open>
  The download and the archive are inputs. \<open>None\<close> stands for a request that
  raised (\<open>requests.get\<close>, \<open>raise_for_status\<close>) or bytes that are no ZIP file.
  An archive is its entries in order, each a name with what \<open>read_csv\<close> makes of
  its content, read as UTF-8 or, when that cannot be decoded, as Latin-1 (\<open>None\<close>
  when read_csv raises, as it does on a file with no data or with a row longer than the
  first). \<open>zip_file.open(name)\<close> opens the last entry
  of that name.

  The function returns \<open>None\<close> after \<open>st.error\<close> in two places: no CSV file in
  the archive (\<open>NoCsvFiles\<close>), and an exception caught at line 81 (\<open>Caught\<close>).
\<close>

type_synonym archive = "(string \<times> raw_frame option) list"

datatype load_error = NoCsvFiles | Caught exc

definition csv_files :: "string list \<Rightarrow> string list" where
  "csv_files namelist = filter (\<lambda>f. suffix ''.csv'' f) namelist"

definition is_data_file :: "string \<Rightarrow> bool" where
  "is_data_file f = (sublist ''valeurs'' (lower f) \<or> sublist ''donnees'' (lower f))"

text \<open>Lines 30-41; \<open>None\<close> when the archive holds no CSV file.\<close>

definition select_data_file :: "string list \<Rightarrow> string option" where
  "select_data_file namelist =
     (let cs = csv_files namelist
      in if cs = [] then None
         else (let data_file = filter is_data_file cs
               in if data_file = [] then Some (hd cs) else Some (hd data_file)))"

definition load_insee_data :: "archive option \<Rightarrow> string \<Rightarrow> load_error + frame" where
  "load_insee_data response region_name =
     (case response of
        None \<Rightarrow> Inl (Caught RequestError)
      | Some zip_file \<Rightarrow>
          (case select_data_file (map fst zip_file) of
             None \<Rightarrow> Inl NoCsvFiles
           | Some data_file \<Rightarrow>
               (case map_of (rev zip_file) data_file of
                  Some (Some df) \<Rightarrow>
                    (case clean_frame df region_name of
                       Inl e \<Rightarrow> Inl (Caught e)
                     | Inr out \<Rightarrow> Inr out)
                | _ \<Rightarrow> Inl (Caught ReadError))))"

text \<open>\<open>process_data\<close>: an empty frame (no row or no column) counts as no data.\<close>

definition process_data :: "frame \<Rightarrow> frame option" where
  "process_data df = (if rows df = [] \<or> columns df = [] then None else Some df)"

section \<open>What the specification says of a row\<close>

text \<open>
  The specification's reading of one input row, used to state the theorems:
  \<open>spec_value\<close>: the value text with the quotes stripped and the decimal comma made
  a point, read as a float;
  \<open>float_ok\<close>: \<open>astype(float)\<close> does not raise on the row's value;
  \<open>clock_free\<close>: the row's date is not one of the two words read as the current time;
  \<open>valid_row\<close>: the row's date parses as \<open>YYYY-MM\<close> and its value parses to a
  float other than NaN;
  \<open>observation\<close>: the Observation of a valid row: its month, its value, its status
  without quotes, the further columns as read, and the region.
\<close>

definition spec_value :: "string \<Rightarrow> pyfloat option" where
  "spec_value s =
     py_float (map (\<lambda>c. if c = CHR '','' then CHR ''.'' else c) (filter (\<lambda>c. c \<noteq> CHR 0x22) s))"

definition spec_date :: "string \<Rightarrow> month option" where
  "spec_date s = to_datetime (filter (\<lambda>c. c \<noteq> CHR 0x22) s)"

definition float_ok :: "string option list \<Rightarrow> bool" where
  "float_ok r = (case cell_at r 1 of None \<Rightarrow> True | Some s \<Rightarrow> spec_value s \<noteq> None)"

definition clock_free :: "string option list \<Rightarrow> bool" where
  "clock_free r =
     (case cell_at r 0 of
        None \<Rightarrow> True
      | Some s \<Rightarrow> \<not> clock_word (filter (\<lambda>c. c \<noteq> CHR 0x22) s))"

definition valid_row :: "string option list \<Rightarrow> bool" where
  "valid_row r =
     (case (cell_at r 0, cell_at r 1) of
        (Some d, Some t) \<Rightarrow>
          spec_date d \<noteq> None \<and> (case spec_value t of Some v \<Rightarrow> v \<noteq> NaN | None \<Rightarrow> False)
      | _ \<Rightarrow> False)"

definition observation :: "nat \<Rightarrow> string \<Rightarrow> string option list \<Rightarrow> cell list" where
  "observation n region r =
     (case (cell_at r 0, cell_at r 1) of
        (Some d, Some t) \<Rightarrow>
          (case (spec_date d, spec_value t) of
             (Some ym, Some v) \<Rightarrow>
               [Ts ym, Val v,
                (case cell_at r 2 of
                   None \<Rightarrow> Raw None
                 | Some s \<Rightarrow> Str (filter (\<lambda>c. c \<noteq> CHR 0x22) s))] @
               map (\<lambda>i. Raw (cell_at r i)) [3..<n] @ [Str region]
           | _ \<Rightarrow> [])
      | _ \<Rightarrow> [])"

section \<open>Alignment: \<open>set_index\<close>, \<open>dropna\<close>, \<open>asfreq('MS')\<close>\<close>

text \<open>
  A series is its entries in order: the month (as a number of months, \<open>ordinal\<close>) and
  the value. \<open>series_of\<close> is \<open>df.set_index('Date')[col]\<close>; \<open>None\<close> is the
  \<open>KeyError\<close> of a frame with no such column. A frame with a \<open>Date\<close> column is one
  that lines 52-79 cleaned, whose rows have a cell for every column, whose dates are
  timestamps and whose values are floats; a row of any other form is given the same
  outcome.
\<close>

fun position :: "'a \<Rightarrow> 'a list \<Rightarrow> nat option" where
  "position a [] = None"
| "position a (x # xs) = (if x = a then Some 0 else map_option Suc (position a xs))"

fun entry :: "cell \<Rightarrow> cell \<Rightarrow> (int \<times> pyfloat) option" where
  "entry (Ts ym) (Val v) = Some (ordinal ym, v)"
| "entry d v = None"

definition series_of :: "frame \<Rightarrow> string \<Rightarrow> (int \<times> pyfloat) list option" where
  "series_of df col =
     (case (position (Name ''Date'') (columns df), position (Name col) (columns df)) of
        (Some i, Some j) \<Rightarrow>
          those (map (\<lambda>r. if i < length r \<and> j < length r then entry (r ! i) (r ! j) else None)
                   (rows df))
      | _ \<Rightarrow> None)"

definition dropna_series :: "(int \<times> pyfloat) list \<Rightarrow> (int \<times> pyfloat) list" where
  "dropna_series s = filter (\<lambda>e. snd e \<noteq> NaN) s"

text \<open>
  \<open>asfreq('MS')\<close> reindexes the series on \<open>date_range(index.min(), index.max(),
  freq='MS')\<close>: one entry per month from the first to the last, the value of the
  series where it has that month and missing (\<open>None\<close>) elsewhere. An empty series
  stays empty. Reindexing a series that has a month twice raises \<open>ValueError\<close>.
\<close>

definition asfreq :: "(int \<times> 'v) list \<Rightarrow> exc + (int \<times> 'v option) list" where
  "asfreq ts =
     (if ts = [] then Inr []
      else if \<not> distinct (map fst ts) then Inl ValueError
      else (let lo = Min (set (map fst ts)); hi = Max (set (map fst ts))
            in Inr (map (\<lambda>m. (m, map_of ts m)) [lo..hi])))"

text \<open>Lines 356-357 of \<open>main\<close>.\<close>

definition aligned_series :: "frame \<Rightarrow> exc + (int \<times> pyfloat option) list" where
  "aligned_series df =
     (case series_of df ''Occupancy_Rate'' of
        None \<Rightarrow> Inl KeyError
      | Some s \<Rightarrow> asfreq (dropna_series s))"

section \<open>Interpolation and fill\<close>

text \<open>
  \<open>interpolate(method='linear')\<close> takes the values as equally spaced. A missing
  value between two known ones lies on the line through its nearest known neighbours
  (\<open>np.interp\<close>); missing values after the last known one repeat it; missing values
  before the first known one stay missing (\<open>limit_direction\<close> is forward).
  \<open>mean\<close> skips missing values and is missing itself when nothing is known;
  \<open>fillna\<close> with a missing value changes nothing.
\<close>

fun prev_valid :: "'a option list \<Rightarrow> nat \<Rightarrow> (nat \<times> 'a) option" where
  "prev_valid xs 0 = None"
| "prev_valid xs (Suc i) = (case xs ! i of Some v \<Rightarrow> Some (i, v) | None \<Rightarrow> prev_valid xs i)"

definition next_valid :: "'a option list \<Rightarrow> nat \<Rightarrow> (nat \<times> 'a) option" where
  "next_valid xs i =
     (case find (\<lambda>j. xs ! j \<noteq> None) [Suc i..<length xs] of
        Some j \<Rightarrow> map_option (\<lambda>v. (j, v)) (xs ! j)
      | None \<Rightarrow> None)"

definition interpolate_at :: "rat option list \<Rightarrow> nat \<Rightarrow> rat option" where
  "interpolate_at xs i =
     (case xs ! i of
        Some v \<Rightarrow> Some v
      | None \<Rightarrow>
          (case prev_valid xs i of
             None \<Rightarrow> None
           | Some (j, a) \<Rightarrow>
               (case next_valid xs i of
                  None \<Rightarrow> Some a
                | Some (k, b) \<Rightarrow> Some ((b - a) / of_nat (k - j) * of_nat (i - j) + a))))"

definition interpolate :: "rat option list \<Rightarrow> rat option list" where
  "interpolate xs = map (interpolate_at xs) [0..<length xs]"

definition known :: "'a option list \<Rightarrow> 'a list" where
  "known xs = map the (filter (\<lambda>x. x \<noteq> None) xs)"

definition average :: "rat list \<Rightarrow> rat" where
  "average vs = sum_list vs / of_nat (length vs)"

definition mean :: "rat option list \<Rightarrow> rat option" where
  "mean xs = (if known xs = [] then None else Some (average (known xs)))"

definition fillna :: "rat option list \<Rightarrow> rat option \<Rightarrow> rat option list" where
  "fillna xs v =
     (case v of
        None \<Rightarrow> xs
      | Some m \<Rightarrow> map (\<lambda>x. case x of None \<Rightarrow> Some m | Some y \<Rightarrow> Some y) xs)"

text \<open>
  Lines 360 and 363 of \<open>main\<close>: \<open>ts = ts.interpolate(method='linear')\<close>, then
  \<open>ts = ts.fillna(ts.mean())\<close>, the mean being that of the interpolated series.
  (The fill of lines 416 and 497 takes the mean of the series before alignment; see
  \<open>temp_decomposition\<close>.)
\<close>

definition interpolate_and_fill :: "rat option list \<Rightarrow> rat option list" where
  "interpolate_and_fill ts = (let ts' = interpolate ts in fillna ts' (mean ts'))"

section \<open>\<open>seasonal_decompose(ts, model='additive', period=12)\<close>\<close>

text \<open>
  The function of statsmodels, for the arguments the source gives it. It raises
  \<open>ValueError\<close> on a value that is not finite and on fewer than \<open>2 * period\<close>
  observations. For the even period 12 the trend filter is
  \<open>[0.5] + [1] * 11 + [0.5]\<close> divided by 12, thirteen weights; \<open>convolution_filter\<close>
  with two sides keeps the positions where the whole filter fits and pads the result
  with \<open>ceil(13 / 2) - 1 = 6\<close> missing values in front and
  \<open>ceil(13 / 2) - 13 % 2 = 6\<close> behind. \<open>seasonal_mean\<close> averages
  \<open>detrended[i::period]\<close> for each \<open>i\<close>, skipping missing values; the averages have
  their mean subtracted, are tiled over the length of the series, and are subtracted
  from the detrended values to give the residual.
\<close>

definition period :: nat where
  "period = 12"

definition filt :: "rat list" where
  "filt = map (\<lambda>w. w / of_nat period) ([1 / 2] @ replicate (period - 1) 1 @ [1 / 2])"

definition convolve_valid :: "rat list \<Rightarrow> rat list \<Rightarrow> rat list" where
  "convolve_valid x f =
     map (\<lambda>t. sum_list (map (\<lambda>k. f ! k * x ! (t + (length f - 1) - k)) [0..<length f]))
       [0..<Suc (length x) - length f]"

definition convolution_filter :: "rat list \<Rightarrow> rat list \<Rightarrow> rat option list" where
  "convolution_filter x f =
     (let trim_head = (length f + 1) div 2 - 1;
          trim_tail = (length f + 1) div 2 - length f mod 2
      in replicate trim_head None @ map Some (convolve_valid x f) @ replicate trim_tail None)"

definition minus_opt :: "rat option \<Rightarrow> rat option \<Rightarrow> rat option" where
  "minus_opt a b = (case (a, b) of (Some x, Some y) \<Rightarrow> Some (x - y) | _ \<Rightarrow> None)"

definition slice_from :: "nat \<Rightarrow> nat \<Rightarrow> 'a list \<Rightarrow> 'a list" where
  "slice_from i p x = map (\<lambda>k. x ! (i + p * k)) [0..<(length x + p - 1 - i) div p]"

definition nanmean :: "rat option list \<Rightarrow> rat option" where
  "nanmean xs = (if known xs = [] then None else Some (average (known xs)))"

definition seasonal_mean :: "rat option list \<Rightarrow> nat \<Rightarrow> rat option list" where
  "seasonal_mean x p = map (\<lambda>i. nanmean (slice_from i p x)) [0..<p]"

definition subtract_mean :: "rat option list \<Rightarrow> rat option list" where
  "subtract_mean a =
     (case those a of
        None \<Rightarrow> map (\<lambda>v. None) a
      | Some vs \<Rightarrow> map (\<lambda>v. Some (v - average vs)) vs)"

definition detrend :: "rat list \<Rightarrow> rat option list" where
  "detrend x = map2 (\<lambda>v t. minus_opt (Some v) t) x (convolution_filter x filt)"

definition period_averages :: "rat list \<Rightarrow> rat option list" where
  "period_averages x = subtract_mean (seasonal_mean (detrend x) period)"

record decomposition =
  trend :: "rat option list"
  seasonal :: "rat option list"
  resid :: "rat option list"

definition seasonal_decompose :: "rat option list \<Rightarrow> exc + decomposition" where
  "seasonal_decompose ts =
     (case those ts of
        None \<Rightarrow> Inl ValueError
      | Some x \<Rightarrow>
          if length x < 2 * period then Inl ValueError
          else
            (let s = map (\<lambda>t. period_averages x ! (t mod period)) [0..<length x]
             in Inr \<lparr>trend = convolution_filter x filt,
                    seasonal = s,
                    resid = map2 minus_opt (detrend x) s\<rparr>))"

section \<open>The decomposition block of \<open>main\<close>\<close>

text \<open>
  Lines 352-434 (Marne) and 437-517 (France), which differ in the regions only.
  \<open>selected\<close> is whether the region is in \<open>selected_regions\<close>; \<open>processed\<close> is
  \<open>process_data\<close> of what was loaded, or \<open>None\<close>; \<open>other_selected\<close> and
  \<open>other_processed\<close> are the same of the other region. The block shows the
  decomposition of its region (\<open>Decomposed\<close>), shows the message of an exception it
  caught (\<open>NotAvailable\<close>), or shows nothing (\<open>NotShown\<close>). The calls that draw
  the charts are taken not to raise.

  While it draws the seasonal chart, the block also decomposes the series of the other
  region, when that region is selected and loaded, to give both charts one range (lines
  412-425 and 494-508). This second decomposition is \<open>temp_decomposition\<close>: it aligns
  the other series, interpolates, fills with the mean of that series as it was before
  alignment, and decomposes when the aligned series has more than 24 points, with no
  test on the number of Observations; an exception there is passed over. Its result is
  the second component of \<open>Decomposed\<close>.

  An infinite value is left where it is by \<open>interpolate\<close> and \<open>fillna\<close>, which write
  missing positions only, so \<open>seasonal_decompose\<close> raises on such a series when it is
  called; the rational arithmetic is for the series without one.
\<close>

datatype outcome =
  Decomposed decomposition "decomposition option" | NotAvailable exc | NotShown

fun is_finite :: "pyfloat \<Rightarrow> bool" where
  "is_finite (Fin r) = True"
| "is_finite v = False"

fun finite_value :: "pyfloat option \<Rightarrow> rat option option" where
  "finite_value None = Some None"
| "finite_value (Some (Fin r)) = Some (Some r)"
| "finite_value (Some NaN) = Some None"
| "finite_value (Some PInf) = None"
| "finite_value (Some NInf) = None"

text \<open>Lines 415-418 and 496-499.\<close>

definition temp_decomposition :: "frame \<Rightarrow> decomposition option" where
  "temp_decomposition df =
     (case series_of df ''Occupancy_Rate'' of
        None \<Rightarrow> None
      | Some s \<Rightarrow>
          (let ts_temp = dropna_series s
           in case asfreq ts_temp of
                Inl e \<Rightarrow> None
              | Inr g \<Rightarrow>
                  (case (those (map finite_value (map snd g)),
                         those (map (\<lambda>e. finite_value (Some (snd e))) ts_temp)) of
                     (Some ts, Some vs) \<Rightarrow>
                       (let ts' = fillna (interpolate ts) (mean vs)
                        in if 24 < length ts'
                           then (case seasonal_decompose ts' of
                                   Inl e \<Rightarrow> None
                                 | Inr d \<Rightarrow> Some d)
                           else None)
                   | _ \<Rightarrow> None)))"

text \<open>
  Lines 360-425, on the values of the aligned series; \<open>other\<close> is the frame of the
  other region when that region is selected and loaded. Between the decomposition and
  the first chart, line 387 (472) reads the column \<open>Occupancy_Rate\<close> of the other
  frame for the range of the chart, which raises \<open>KeyError\<close> on a frame without it.
\<close>

definition decompose_aligned :: "pyfloat option list \<Rightarrow> frame option \<Rightarrow> outcome" where
  "decompose_aligned g other =
     (case those (map finite_value g) of
        None \<Rightarrow> if 24 < length g then NotAvailable ValueError else NotShown
      | Some ts \<Rightarrow>
          (let ts' = interpolate_and_fill ts
           in if 24 < length ts'
              then (case seasonal_decompose ts' of
                      Inl e \<Rightarrow> NotAvailable e
                    | Inr d \<Rightarrow>
                        (case other of
                           None \<Rightarrow> Decomposed d None
                         | Some other_df \<Rightarrow>
                             if position (Name ''Occupancy_Rate'') (columns other_df) = None
                             then NotAvailable KeyError
                             else Decomposed d (temp_decomposition other_df)))
              else NotShown))"

definition main_decomposition ::
  "bool \<Rightarrow> frame option \<Rightarrow> bool \<Rightarrow> frame option \<Rightarrow> outcome" where
  "main_decomposition selected processed other_selected other_processed =
     (case processed of
        None \<Rightarrow> NotShown
      | Some df \<Rightarrow>
          if selected \<and> 24 < length (rows df)
          then (case aligned_series df of
                  Inl e \<Rightarrow> NotAvailable e
                | Inr g \<Rightarrow>
                    decompose_aligned (map snd g)
                      (if other_selected then other_processed else None))
          else NotShown)"

section \<open>Normalisation: lemmas\<close>

lemma those_map_None:
  "(those (map f xs) = None) = (\<exists>x \<in> set xs. f x = None)"
  by (induction xs) (auto split: option.splits)

lemma those_map_Some:
  "\<forall>x \<in> set xs. f x \<noteq> None \<Longrightarrow> those (map f xs) = Some (map (\<lambda>x. the (f x)) xs)"
  by (induction xs) (auto split: option.splits)

lemma map2_map_same: "map2 f xs (map g xs) = map (\<lambda>x. f x (g x)) xs"
  by (induction xs) auto

lemma overflow_bound_power: "overflow_bound = 2 ^ 1024 - 2 ^ 970"
  by (simp add: overflow_bound_def)

lemma clean_value_spec:
  "clean_value c = (case c of None \<Rightarrow> Some NaN | Some s \<Rightarrow> spec_value s)"
  by (simp add: clean_value_def spec_value_def replace_char_def remove_char_def
      split: option.splits)

lemma float_ok_clean_value: "float_ok r = (clean_value (cell_at r 1) \<noteq> None)"
  by (simp add: float_ok_def clean_value_spec split: option.splits)

lemma clean_frame_raises:
  assumes "3 \<le> ncols df" and "r \<in> set (raw_rows df)" and "\<not> float_ok r"
  shows "clean_frame df region = Inl ValueError"
proof -
  have "\<exists>x \<in> set (raw_rows df). clean_value (cell_at x 1) = None"
    using assms(2,3) by (auto simp: float_ok_clean_value)
  then have "those (map (\<lambda>r. clean_value (cell_at r 1)) (raw_rows df)) = None"
    by (simp add: those_map_None)
  then show ?thesis using assms(1) by (simp add: clean_frame_def)
qed

lemma clean_frame_rows:
  assumes "3 \<le> ncols df" and "\<forall>r \<in> set (raw_rows df). float_ok r"
  shows "clean_frame df region =
     Inr \<lparr>columns =
            [Name ''Date'', Name (value_col region), Name ''Status''] @
            map (\<lambda>i. Name (''Col_'' @ str_nat i)) [3..<ncols df] @ [Name ''Region''],
          rows =
            map (\<lambda>r. r @ [Str region])
              (sort_values (dropna (map (\<lambda>r. clean_row (ncols df) r (the (clean_value (cell_at r 1))))
                 (raw_rows df))))\<rparr>"
proof -
  have "\<forall>r \<in> set (raw_rows df). clean_value (cell_at r 1) \<noteq> None"
    using assms(2) by (simp add: float_ok_clean_value)
  then have "those (map (\<lambda>r. clean_value (cell_at r 1)) (raw_rows df)) =
      Some (map (\<lambda>r. the (clean_value (cell_at r 1))) (raw_rows df))"
    by (rule those_map_Some)
  then show ?thesis
    using assms(1) by (simp add: clean_frame_def map2_map_same)
qed

lemma clean_row_kept:
  "float_ok r \<Longrightarrow>
   (\<not> isna (clean_row n r (the (clean_value (cell_at r 1))) ! 0) \<and>
    \<not> isna (clean_row n r (the (clean_value (cell_at r 1))) ! 1)) = valid_row r"
  by (auto simp: clean_row_def isna_def clean_date_def valid_row_def float_ok_def
      spec_date_def clean_value_spec remove_char_def split: option.splits)

lemma clean_row_observation:
  "valid_row r \<Longrightarrow>
   clean_row n r (the (clean_value (cell_at r 1))) @ [Str region] = observation n region r"
  by (auto simp: clean_row_def clean_date_def clean_status_def valid_row_def observation_def
      spec_date_def clean_value_spec remove_char_def split: option.splits)

lemma dropna_clean_rows:
  assumes "\<forall>r \<in> set rs. float_ok r"
  shows "dropna (map (\<lambda>r. clean_row n r (the (clean_value (cell_at r 1)))) rs) =
         map (\<lambda>r. clean_row n r (the (clean_value (cell_at r 1)))) (filter valid_row rs)"
proof -
  let ?f = "\<lambda>r. clean_row n r (the (clean_value (cell_at r 1)))"
  have "filter ((\<lambda>r. \<not> isna (r ! 0) \<and> \<not> isna (r ! 1)) \<circ> ?f) rs = filter valid_row rs"
  proof (rule filter_cong)
    fix r assume "r \<in> set rs"
    then have "float_ok r" using assms by blast
    then show "((\<lambda>r. \<not> isna (r ! 0) \<and> \<not> isna (r ! 1)) \<circ> ?f) r = valid_row r"
      unfolding comp_def by (rule clean_row_kept)
  qed simp
  then show ?thesis
    unfolding dropna_def filter_map by (rule arg_cong)
qed

lemma date_key_append: "r \<noteq> [] \<Longrightarrow> date_key (r @ e) = date_key r"
  by (cases r) (simp_all add: date_key_def)

lemma sorted_sort_values: "sorted (map date_key (sort_values rs))"
  by (simp add: sort_values_def)

lemma date_key_region_rows:
  assumes "\<forall>r \<in> set rs. r \<noteq> []"
  shows "map date_key (map (\<lambda>r. r @ [Str region]) rs) = map date_key rs"
  using assms by (induction rs) (simp_all add: date_key_append)

lemma rows_of_clean_frame:
  assumes "3 \<le> ncols df" and "\<forall>r \<in> set (raw_rows df). float_ok r"
  shows "\<exists>out. clean_frame df region = Inr out \<and>
           rows out = map (\<lambda>r. r @ [Str region])
             (sort_values (map (\<lambda>r. clean_row (ncols df) r (the (clean_value (cell_at r 1))))
                (filter valid_row (raw_rows df))))"
  using clean_frame_rows [OF assms] dropna_clean_rows [OF assms(2)] by simp

lemma mset_sort_values: "mset (sort_values rs) = mset rs"
  by (simp add: sort_values_def)

lemma length_sort_values: "length (sort_values rs) = length rs"
  by (simp add: sort_values_def)

lemma set_sort_values: "set (sort_values rs) = set rs"
  by (simp add: sort_values_def)

lemma clean_row_nonempty: "clean_row n r v \<noteq> []"
  by (simp add: clean_row_def)

lemma hd_observation:
  "valid_row r \<Longrightarrow> \<exists>ym. hd (observation n region r) = Ts ym"
  by (auto simp: observation_def valid_row_def split: option.splits)

lemma find_filter_hd:
  "find P xs = (case filter P xs of [] \<Rightarrow> None | x # ys \<Rightarrow> Some x)"
  by (induction xs) auto

lemma select_data_file_None:
  "(select_data_file names = None) = (\<forall>f \<in> set names. \<not> suffix ''.csv'' f)"
  by (auto simp: select_data_file_def csv_files_def Let_def filter_empty_conv)

section \<open>Claims about \<open>load_insee_data\<close>\<close>

text \<open>
  C1. The specification says that a row whose value does not parse as a float yields no
  Observation while the other rows yield theirs; on the three rows (2020-01; 10,0; A),
  (2020-02; 20,0; A), (2020-03; xx; A) the Series would hold January and February. In
  the code \<open>astype(float)\<close> raises on \<open>xx\<close>, the exception is caught at the end of
  \<open>load_insee_data\<close>, and the function returns no Series at all for that input.
\<close>

theorem unparseable_value_loses_the_series:
  "load_insee_data
     (Some [(''valeurs_mensuelles.csv'',
             Some \<lparr>ncols = 3,
                   raw_rows = [[Some ''2020-01'', Some ''10,0'', Some ''A''],
                               [Some ''2020-02'', Some ''20,0'', Some ''A''],
                               [Some ''2020-03'', Some ''xx'', Some ''A'']]\<rparr>)])
     ''Marne'' = Inl (Caught ValueError)"
  by code_simp

text \<open>
  C2, as the code has it. On a table of at least three columns in which no value makes
  \<open>astype(float)\<close> raise and no date is one of the words read as the current time, the
  rows returned are the Observations of the valid input rows, each as often as the input
  has it, in ascending order of date: rows of the same month are all kept, so a month
  can repeat.
\<close>

theorem series_sorted_with_duplicates_kept:
  assumes "3 \<le> ncols df" and "\<forall>r \<in> set (raw_rows df). float_ok r \<and> clock_free r"
  shows "\<exists>out. clean_frame df region = Inr out \<and>
           sorted (map date_key (rows out)) \<and>
           (\<forall>r \<in> set (rows out). \<exists>ym. hd r = Ts ym) \<and>
           mset (rows out) =
           mset (map (observation (ncols df) region) (filter valid_row (raw_rows df)))"
proof -
  let ?f = "\<lambda>r. clean_row (ncols df) r (the (clean_value (cell_at r 1)))"
  let ?vs = "filter valid_row (raw_rows df)"
  have ok: "\<forall>r \<in> set (raw_rows df). float_ok r" using assms(2) by blast
  obtain out where out: "clean_frame df region = Inr out"
    and rs: "rows out = map (\<lambda>r. r @ [Str region]) (sort_values (map ?f ?vs))"
    using rows_of_clean_frame [OF assms(1) ok] by blast
  have ne: "\<forall>r \<in> set (sort_values (map ?f ?vs)). r \<noteq> []"
    by (auto simp: set_sort_values clean_row_nonempty)
  have "map date_key (rows out) = map date_key (sort_values (map ?f ?vs))"
    unfolding rs using ne by (rule date_key_region_rows)
  then have s: "sorted (map date_key (rows out))"
    by (simp add: sorted_sort_values)
  have h: "\<exists>ym. hd r = Ts ym" if "r \<in> set (rows out)" for r
  proof -
    from that obtain x where x: "valid_row x" and r: "r = ?f x @ [Str region]"
      unfolding rs by (auto simp: set_sort_values)
    from r have "r = observation (ncols df) region x"
      using clean_row_observation [OF x] by simp
    then show ?thesis using hd_observation [OF x] by simp
  qed
  have "mset (rows out) = image_mset (\<lambda>r. r @ [Str region]) (mset (map ?f ?vs))"
    unfolding rs by (simp add: mset_sort_values)
  also have "\<dots> = mset (map (\<lambda>r. ?f r @ [Str region]) ?vs)"
    by (simp add: multiset.map_comp comp_def)
  also have "map (\<lambda>r. ?f r @ [Str region]) ?vs = map (observation (ncols df) region) ?vs"
  proof (rule map_cong)
    fix x assume "x \<in> set ?vs"
    then have "valid_row x" by simp
    then show "?f x @ [Str region] = observation (ncols df) region x"
      by (rule clean_row_observation)
  qed simp
  finally have m: "mset (rows out) = mset (map (observation (ncols df) region) ?vs)" .
  from out s h m show ?thesis by blast
qed

theorem series_sorted_with_duplicates_kept_witness:
  "\<exists>out. clean_frame
            \<lparr>ncols = 3,
             raw_rows = [[Some ''2020-02'', Some ''2,5'', Some ''A''],
                         [Some ''2020-03'', None, Some ''A''],
                         [Some ''2020-01'', Some ''1,0'', None],
                         [Some ''2020'', Some ''7,0'', Some ''A''],
                         [Some ''2020-02'', Some ''4,0'', Some ''P'']]\<rparr> ''Marne'' = Inr out \<and>
         sorted (map date_key (rows out)) \<and>
         mset (rows out) =
           {#[Ts (2020, 2), Val (Fin (5 / 2)), Str ''A'', Str ''Marne''],
             [Ts (2020, 1), Val (Fin 1), Raw None, Str ''Marne''],
             [Ts (2020, 2), Val (Fin 4), Str ''P'', Str ''Marne'']#}"
proof -
  let ?df = "\<lparr>ncols = 3,
              raw_rows = [[Some ''2020-02'', Some ''2,5'', Some ''A''],
                          [Some ''2020-03'', None, Some ''A''],
                          [Some ''2020-01'', Some ''1,0'', None],
                          [Some ''2020'', Some ''7,0'', Some ''A''],
                          [Some ''2020-02'', Some ''4,0'', Some ''P'']]\<rparr>"
  have c: "3 \<le> ncols ?df" by simp
  have f: "\<forall>r \<in> set (raw_rows ?df). float_ok r \<and> clock_free r" by code_simp
  have v: "map (observation (ncols ?df) ''Marne'') (filter valid_row (raw_rows ?df)) =
           [[Ts (2020, 2), Val (Fin (5 / 2)), Str ''A'', Str ''Marne''],
            [Ts (2020, 1), Val (Fin 1), Raw None, Str ''Marne''],
            [Ts (2020, 2), Val (Fin 4), Str ''P'', Str ''Marne'']]"
    by code_simp
  show ?thesis
    using series_sorted_with_duplicates_kept [OF c f, of "''Marne''"] unfolding v by auto
qed

text \<open>
  C2 as the specification states it fails: two valid rows of January 2020 give a Series
  with two Observations of that month, so timestamps repeat and no row wins.
\<close>

theorem same_month_twice_in_series:
  "map hd (rows (projr (load_insee_data
          (Some [(''valeurs_mensuelles.csv'',
                  Some \<lparr>ncols = 3,
                        raw_rows = [[Some ''2020-01'', Some ''1,0'', Some ''A''],
                                    [Some ''2020-01'', Some ''2,0'', Some ''A'']]\<rparr>)])
          ''Marne''))) = [Ts (2020, 1), Ts (2020, 1)]"
  by code_simp

text \<open>
  C5. The specification says that every valid row gives one Observation with its value
  converted. Alone, the row (2020-01; 3,5; A) does give the Observation of January 2020
  with the value 3.5. Next to a row whose value is not a float it gives none: the
  exception of \<open>astype(float)\<close> on the other row ends \<open>load_insee_data\<close>, as in C1.
\<close>

theorem valid_row_lost_beside_unparseable_value:
  "load_insee_data
     (Some [(''valeurs_mensuelles.csv'',
             Some \<lparr>ncols = 3,
                   raw_rows = [[Some ''2020-01'', Some ''3,5'', Some ''A'']]\<rparr>)])
     ''Marne'' =
     Inr \<lparr>columns = [Name ''Date'', Name ''Occupancy_Rate'', Name ''Status'', Name ''Region''],
          rows = [[Ts (2020, 1), Val (Fin (7 / 2)), Str ''A'', Str ''Marne'']]\<rparr> \<and>
   load_insee_data
     (Some [(''valeurs_mensuelles.csv'',
             Some \<lparr>ncols = 3,
                   raw_rows = [[Some ''2020-01'', Some ''3,5'', Some ''A''],
                               [Some ''2020-02'', Some ''xx'', Some ''A'']]\<rparr>)])
     ''Marne'' = Inl (Caught ValueError)"
  by code_simp

text \<open>
  C9. The data file is the first entry with a name ending in \<open>.csv\<close> whose name in lower
  case contains \<open>valeurs\<close> or \<open>donnees\<close>, or else the first entry with a name
  ending in \<open>.csv\<close>; and \<open>load_insee_data\<close> reports that there is no CSV file, and
  returns nothing, exactly when no entry of the archive has such a name.
\<close>

theorem data_file_selection:
  "select_data_file names =
     (case find (\<lambda>f. suffix ''.csv'' f \<and>
                      (sublist ''valeurs'' (lower f) \<or> sublist ''donnees'' (lower f))) names of
        Some f \<Rightarrow> Some f
      | None \<Rightarrow> find (\<lambda>f. suffix ''.csv'' f) names) \<and>
   (load_insee_data (Some zip_file) region = Inl NoCsvFiles) =
     (\<forall>f \<in> set (map fst zip_file). \<not> suffix ''.csv'' f)"
proof
  let ?csv = "\<lambda>f. suffix ''.csv'' f"
  let ?cs = "filter ?csv names"
  have m: "find (\<lambda>f. ?csv f \<and> is_data_file f) names =
           (case filter is_data_file ?cs of [] \<Rightarrow> None | x # ys \<Rightarrow> Some x)"
    by (simp add: find_filter_hd conj_commute)
  have c: "find ?csv names = (case ?cs of [] \<Rightarrow> None | x # ys \<Rightarrow> Some x)"
    by (rule find_filter_hd)
  have "select_data_file names =
     (case find (\<lambda>f. ?csv f \<and> is_data_file f) names of
        Some f \<Rightarrow> Some f
      | None \<Rightarrow> find ?csv names)"
    unfolding m c
    by (cases ?cs; cases "filter is_data_file ?cs")
       (simp_all add: select_data_file_def csv_files_def)
  then show "select_data_file names =
     (case find (\<lambda>f. suffix ''.csv'' f \<and>
                      (sublist ''valeurs'' (lower f) \<or> sublist ''donnees'' (lower f))) names of
        Some f \<Rightarrow> Some f
      | None \<Rightarrow> find (\<lambda>f. suffix ''.csv'' f) names)"
    by (simp add: is_data_file_def)
next
  have "(load_insee_data (Some zip_file) region = Inl NoCsvFiles) =
        (select_data_file (map fst zip_file) = None)"
    by (auto simp: load_insee_data_def split: option.splits sum.splits)
  then show "(load_insee_data (Some zip_file) region = Inl NoCsvFiles) =
     (\<forall>f \<in> set (map fst zip_file). \<not> suffix ''.csv'' f)"
    by (simp only: select_data_file_None)
qed

theorem data_file_selection_witness:
  "select_data_file [''notice.txt'', ''caract.csv'', ''Valeurs_Mensuelles.csv'', ''donnees.csv''] =
     Some ''Valeurs_Mensuelles.csv'' \<and>
   select_data_file [''notice.txt'', ''b.csv'', ''a.csv''] = Some ''b.csv'' \<and>
   load_insee_data (Some [(''notice.txt'', None), (''valeurs.CSV'', None)]) ''Marne'' =
     Inl NoCsvFiles"
proof -
  have a: "find (\<lambda>f. suffix ''.csv'' f \<and>
                      (sublist ''valeurs'' (lower f) \<or> sublist ''donnees'' (lower f)))
             [''notice.txt'', ''caract.csv'', ''Valeurs_Mensuelles.csv'', ''donnees.csv''] =
           Some ''Valeurs_Mensuelles.csv''"
    by code_simp
  have b: "find (\<lambda>f. suffix ''.csv'' f \<and>
                      (sublist ''valeurs'' (lower f) \<or> sublist ''donnees'' (lower f)))
             [''notice.txt'', ''b.csv'', ''a.csv''] = None"
    by code_simp
  have b': "find (\<lambda>f. suffix ''.csv'' f) [''notice.txt'', ''b.csv'', ''a.csv''] = Some ''b.csv''"
    by code_simp
  have c: "\<forall>f \<in> set (map fst [(''notice.txt'', None :: raw_frame option), (''valeurs.CSV'', None)]).
             \<not> suffix ''.csv'' f"
    by code_simp
  show ?thesis
    using data_file_selection
      [of "[''notice.txt'', ''caract.csv'', ''Valeurs_Mensuelles.csv'', ''donnees.csv'']"
          "[(''notice.txt'', None), (''valeurs.CSV'', None)]" "''Marne''"]
      data_file_selection [of "[''notice.txt'', ''b.csv'', ''a.csv'']" "[]" "''Marne''"]
      a b b' c
    by simp
qed

text \<open>
  C10. When the table read from the data file has fewer than three columns, the function
  returns it as it was read, in the order read, with its numbered columns and one more
  column \<open>Region\<close>: no cell is cleaned or parsed, no row is dropped, and nothing is
  reported.
\<close>

theorem narrow_table_returned_raw:
  assumes "select_data_file (map fst zip_file) = Some data_file"
    and "map_of (rev zip_file) data_file = Some (Some df)"
    and "ncols df < 3"
  shows "load_insee_data (Some zip_file) region_name =
           Inr \<lparr>columns = map Pos [0..<ncols df] @ [Name ''Region''],
                rows = map (\<lambda>r. map Raw r @ [Str region_name]) (raw_rows df)\<rparr>"
  using assms by (simp add: load_insee_data_def clean_frame_def)

theorem narrow_table_returned_raw_witness:
  "load_insee_data
     (Some [(''valeurs_mensuelles.csv'',
             Some \<lparr>ncols = 2,
                   raw_rows = [[Some ''2020-02'', Some ''xx''],
                               [Some ''nothing'', None],
                               [Some ''2020-01'', Some ''3,5'']]\<rparr>)])
     ''Marne'' =
   Inr \<lparr>columns = [Pos 0, Pos 1, Name ''Region''],
        rows = [[Raw (Some ''2020-02''), Raw (Some ''xx''), Str ''Marne''],
                [Raw (Some ''nothing''), Raw None, Str ''Marne''],
                [Raw (Some ''2020-01''), Raw (Some ''3,5''), Str ''Marne'']]\<rparr>"
proof -
  let ?df = "\<lparr>ncols = 2,
              raw_rows = [[Some ''2020-02'', Some ''xx''],
                          [Some ''nothing'', None],
                          [Some ''2020-01'', Some ''3,5'']]\<rparr>"
  let ?zip = "[(''valeurs_mensuelles.csv'', Some ?df)]"
  have s: "select_data_file (map fst ?zip) = Some ''valeurs_mensuelles.csv''" by code_simp
  have m: "map_of (rev ?zip) ''valeurs_mensuelles.csv'' = Some (Some ?df)" by simp
  have n: "ncols ?df < 3" by simp
  have u: "[0..<2] = [0, Suc 0]" by (simp add: upt_rec)
  show ?thesis
    using narrow_table_returned_raw [OF s m n, of "''Marne''"] by (simp add: u)
qed

section \<open>Alignment and interpolation: lemmas\<close>

lemma interpolate_at_known: "xs ! i = Some v \<Longrightarrow> interpolate_at xs i = Some v"
  by (simp add: interpolate_at_def)

lemma length_interpolate: "length (interpolate xs) = length xs"
  by (simp add: interpolate_def)

lemma nth_interpolate: "i < length xs \<Longrightarrow> interpolate xs ! i = interpolate_at xs i"
  by (simp add: interpolate_def)

lemma interpolate_complete:
  assumes "\<forall>x \<in> set xs. x \<noteq> None"
  shows "interpolate xs = xs"
proof (rule nth_equalityI)
  show "length (interpolate xs) = length xs" by (rule length_interpolate)
next
  fix i assume "i < length (interpolate xs)"
  then have i: "i < length xs" by (simp add: length_interpolate)
  then have "xs ! i \<noteq> None" using assms by simp
  then obtain v where "xs ! i = Some v" by blast
  then show "interpolate xs ! i = xs ! i"
    using i by (simp add: nth_interpolate interpolate_at_known)
qed

lemma fillna_complete:
  assumes "\<forall>x \<in> set xs. x \<noteq> None"
  shows "fillna xs v = xs"
proof (cases v)
  case None
  then show ?thesis by (simp add: fillna_def)
next
  case (Some m)
  have "map (\<lambda>x. case x of None \<Rightarrow> Some m | Some y \<Rightarrow> Some y) xs = map (\<lambda>x. x) xs"
    by (rule map_cong) (use assms in \<open>auto split: option.splits\<close>)
  then show ?thesis using Some by (simp add: fillna_def)
qed

lemma interpolate_and_fill_complete:
  "\<forall>x \<in> set xs. x \<noteq> None \<Longrightarrow> interpolate_and_fill xs = xs"
  by (simp add: interpolate_and_fill_def Let_def interpolate_complete fillna_complete)

lemma Min_upto: "lo \<le> hi \<Longrightarrow> Min {lo..hi} = (lo::int)"
  by (intro Min_eqI) auto

lemma Max_upto: "lo \<le> hi \<Longrightarrow> Max {lo..hi} = (hi::int)"
  by (intro Max_eqI) auto

lemma map_of_distinct_fst:
  assumes "distinct (map fst ts)"
  shows "map (\<lambda>m. (m, map_of ts m)) (map fst ts) = map (\<lambda>e. (fst e, Some (snd e))) ts"
proof -
  have "map_of ts (fst e) = Some (snd e)" if "e \<in> set ts" for e
    using assms that by (cases e) simp
  then show ?thesis by simp
qed

lemma asfreq_contiguous:
  assumes "map fst ts = [lo..hi]"
  shows "asfreq ts = Inr (map (\<lambda>e. (fst e, Some (snd e))) ts)"
proof (cases "ts = []")
  case True
  then show ?thesis by (simp add: asfreq_def)
next
  case False
  then have "[lo..hi] \<noteq> []" using assms by (metis map_is_Nil_conv)
  then have le: "lo \<le> hi" by (cases "lo \<le> hi") (simp_all add: upto.simps)
  have d: "distinct (map fst ts)" using assms by simp
  have "map (\<lambda>m. (m, map_of ts m)) [lo..hi] = map (\<lambda>e. (fst e, Some (snd e))) ts"
    using map_of_distinct_fst [OF d] assms by simp
  then show ?thesis
    using False d le assms by (simp add: asfreq_def Min_upto Max_upto)
qed

lemma dropna_series_id: "\<forall>e \<in> set ts. snd e \<noteq> NaN \<Longrightarrow> dropna_series ts = ts"
  by (simp add: dropna_series_def)

lemma prev_valid_exists:
  "j < i \<Longrightarrow> xs ! j \<noteq> None \<Longrightarrow> prev_valid xs i \<noteq> None"
proof (induction i)
  case 0
  then show ?case by simp
next
  case (Suc i)
  show ?case
  proof (cases "xs ! i")
    case None
    then have "j \<noteq> i" using Suc.prems(2) by auto
    then have "j < i" using Suc.prems(1) by simp
    then show ?thesis using Suc.IH Suc.prems(2) None by simp
  next
    case (Some v)
    then show ?thesis by simp
  qed
qed

lemma interpolate_at_after_known:
  assumes "j \<le> i" and "xs ! j \<noteq> None"
  shows "interpolate_at xs i \<noteq> None"
proof (cases "xs ! i")
  case (Some v)
  then show ?thesis by (simp add: interpolate_at_def)
next
  case None
  then have "j < i" using assms by (cases "j = i") auto
  then have "prev_valid xs i \<noteq> None" using assms(2) by (rule prev_valid_exists)
  then show ?thesis
    using None by (auto simp: interpolate_at_def split: option.splits)
qed

lemma interpolate_no_gap_after_first:
  assumes "xs \<noteq> []" and "xs ! 0 \<noteq> None"
  shows "\<forall>x \<in> set (interpolate xs). x \<noteq> None"
proof
  fix x assume "x \<in> set (interpolate xs)"
  then obtain i where i: "i < length xs" and x: "x = interpolate xs ! i"
    by (auto simp: in_set_conv_nth length_interpolate)
  have "interpolate_at xs i \<noteq> None"
    using assms(2) by (intro interpolate_at_after_known [of 0]) simp_all
  then show "x \<noteq> None" using i x by (simp add: nth_interpolate)
qed

lemma known_nonempty: "Some v \<in> set xs \<Longrightarrow> known xs \<noteq> []"
  by (auto simp: known_def filter_empty_conv)

lemma known_empty_iff: "(known xs = []) = (\<forall>x \<in> set xs. x = None)"
  by (auto simp: known_def filter_empty_conv)

lemma known_interpolate_nonempty:
  assumes "known xs \<noteq> []"
  shows "known (interpolate xs) \<noteq> []"
proof -
  from assms obtain x where "x \<in> set xs" and "x \<noteq> None"
    by (auto simp: known_empty_iff)
  then obtain i v where i: "i < length xs" and v: "xs ! i = Some v"
    by (auto simp: in_set_conv_nth)
  then have "interpolate xs ! i = Some v"
    by (simp add: nth_interpolate interpolate_at_known)
  then have "Some v \<in> set (interpolate xs)"
    using i by (metis length_interpolate nth_mem)
  then show ?thesis by (rule known_nonempty)
qed

lemma nth_fillna:
  "i < length xs \<Longrightarrow> xs ! i = None \<Longrightarrow> fillna xs (Some m) ! i = Some m"
  by (simp add: fillna_def)

lemma asfreq_first_known:
  assumes "asfreq ts = Inr g" and "ts \<noteq> []"
  shows "g \<noteq> [] \<and> snd (g ! 0) \<noteq> None"
proof -
  let ?ms = "set (map fst ts)"
  let ?lo = "Min ?ms" and ?hi = "Max ?ms"
  have ne: "?ms \<noteq> {}" using assms(2) by simp
  have lo: "?lo \<in> ?ms" using ne by (intro Min_in) simp_all
  have "?lo \<le> ?hi" using ne by (intro Min_le Max_in) simp_all
  then have u: "[?lo..?hi] = ?lo # [?lo + 1..?hi]" by (simp add: upto_rec1)
  have g: "g = map (\<lambda>m. (m, map_of ts m)) [?lo..?hi]"
    using assms by (simp add: asfreq_def Let_def split: if_splits)
  have "map_of ts ?lo \<noteq> None"
    using lo by (metis map_of_eq_None_iff set_map)
  then show ?thesis unfolding g u by simp
qed



section \<open>Claims about alignment, interpolation and fill\<close>

text \<open>
  C8. A Series whose months are contiguous and whose values are numbers is aligned to
  itself: same months, same values, same length. And interpolating and filling a series
  with no missing value changes nothing.
\<close>

theorem alignment_round_trip_and_fill_idempotent:
  assumes "map fst ts = [lo..hi]" and "\<forall>e \<in> set ts. snd e \<noteq> NaN"
    and "\<forall>x \<in> set xs. x \<noteq> None"
  shows "asfreq (dropna_series ts) = Inr (map (\<lambda>e. (fst e, Some (snd e))) ts) \<and>
         interpolate_and_fill xs = xs"
  using asfreq_contiguous [OF assms(1)] dropna_series_id [OF assms(2)]
    interpolate_and_fill_complete [OF assms(3)] by simp

theorem alignment_round_trip_and_fill_idempotent_witness:
  "asfreq (dropna_series [(24240, Fin 1), (24241, Fin 5), (24242, Fin 3)]) =
     Inr [(24240, Some (Fin 1)), (24241, Some (Fin 5)), (24242, Some (Fin 3))] \<and>
   interpolate_and_fill [Some 1, Some 5, Some 3] = [Some 1, Some 5, Some 3]"
proof -
  have a: "map fst [(24240, Fin 1), (24241, Fin 5), (24242, Fin 3)] = [24240..24242]"
    by code_simp
  have b: "\<forall>e \<in> set [(24240::int, Fin 1), (24241, Fin 5), (24242, Fin 3)]. snd e \<noteq> NaN"
    by simp
  have c: "\<forall>x \<in> set [Some 1, Some 5, Some (3::rat)]. x \<noteq> None" by simp
  show ?thesis
    using alignment_round_trip_and_fill_idempotent [OF a b c] by simp
qed



section \<open>Decomposition: lemmas\<close>

lemma those_map_Some_id: "those (map Some x) = Some x"
  by (induction x) simp_all

lemma filt_explicit:
  "filt = [1/24, 1/12, 1/12, 1/12, 1/12, 1/12, 1/12, 1/12, 1/12, 1/12, 1/12, 1/12, 1/24]"
  by code_simp

lemma length_filt: "length filt = 13"
  by (simp add: filt_explicit)

lemma upt_13: "[0..<13] = [0, 1, 2, 3, 4, 5, 6, 7, 8, 9, 10, 11, 12]"
  by code_simp

lemma upt_window: "[t + 1..<t + 12] = [t + 1, t + 2, t + 3, t + 4, t + 5, t + 6, t + 7, t + 8, t + 9, t + 10, t + 11]"
proof -
  have "t + 12 = 11 + (t + 1)" by simp
  then have "[t + 1..<t + 12] = [t + 1..<11 + (t + 1)]" by (rule arg_cong)
  also have "\<dots> = map (\<lambda>i. i + (t + 1)) [0..<11]"
    by (rule map_add_upt [symmetric])
  also have "[0..<11] = [0, 1, 2, 3, 4, 5, 6, 7, 8, 9, 10::nat]"
    by code_simp
  finally show ?thesis by (simp add: add.commute)
qed

lemma length_convolve_valid: "length (convolve_valid x f) = Suc (length x) - length f"
  by (simp add: convolve_valid_def)

lemma convolve_valid_filt:
  assumes "t + 12 < length x"
  shows "convolve_valid x filt ! t =
         (x ! t / 2 + sum_list (map (\<lambda>j. x ! j) [t + 1..<t + 12]) + x ! (t + 12) / 2) / 12"
proof -
  have "t < Suc (length x) - 13" using assms by simp
  then have "convolve_valid x filt ! t =
      sum_list (map (\<lambda>k. filt ! k * x ! (t + 12 - k)) [0..<13])"
    by (simp add: convolve_valid_def length_filt)
  also have "\<dots> = (x ! t / 2 + sum_list (map (\<lambda>j. x ! j) [t + 1..<t + 12]) + x ! (t + 12) / 2) / 12"
    unfolding upt_13 upt_window filt_explicit
    by (simp add: field_simps)
  finally show ?thesis .
qed

lemma convolution_filter_filt:
  "convolution_filter x filt =
     replicate 6 None @ map Some (convolve_valid x filt) @ replicate 6 None"
  by (simp add: convolution_filter_def length_filt)

lemma length_trend:
  assumes "12 \<le> length x"
  shows "length (convolution_filter x filt) = length x"
  using assms by (simp add: convolution_filter_filt length_convolve_valid length_filt)

lemma nth_trend:
  assumes "12 \<le> length x" and "i < length x"
  shows "convolution_filter x filt ! i =
         (if i < 6 \<or> length x - 6 \<le> i then None
          else Some ((x ! (i - 6) / 2 + sum_list (map (\<lambda>j. x ! j) [i - 5..<i + 6]) +
                      x ! (i + 6) / 2) / 12))"
proof -
  let ?c = "convolve_valid x filt"
  have lc: "length ?c = length x - 12"
    by (simp add: length_convolve_valid length_filt)
  consider "i < 6" | "6 \<le> i" "i < length x - 6" | "length x - 6 \<le> i" "6 \<le> i"
    by linarith
  then show ?thesis
  proof cases
    case 1
    then show ?thesis by (simp add: convolution_filter_filt nth_append)
  next
    case 2
    then have t: "i - 6 + 12 < length x" by simp
    have "convolution_filter x filt ! i = Some (?c ! (i - 6))"
      using 2 lc by (simp add: convolution_filter_filt nth_append)
    also have "?c ! (i - 6) =
        (x ! (i - 6) / 2 + sum_list (map (\<lambda>j. x ! j) [i - 6 + 1..<i - 6 + 12]) +
         x ! (i - 6 + 12) / 2) / 12"
      using t by (rule convolve_valid_filt)
    also have "i - 6 + 1 = i - 5" using 2 by simp
    also have "i - 6 + 12 = i + 6" using 2 by simp
    finally show ?thesis using 2 by simp
  next
    case 3
    then have "convolution_filter x filt ! i = replicate 6 (None :: rat option) ! (i - (6 + length ?c))"
      using lc assms by (simp add: convolution_filter_filt nth_append)
    moreover have "i - (6 + length ?c) < 6" using 3 lc assms by simp
    ultimately show ?thesis using 3 by simp
  qed
qed

lemma seasonal_decompose_Inr:
  assumes "24 \<le> length x"
  shows "seasonal_decompose (map Some x) =
     Inr \<lparr>trend = convolution_filter x filt,
          seasonal = map (\<lambda>t. period_averages x ! (t mod period)) [0..<length x],
          resid = map2 minus_opt (detrend x)
                    (map (\<lambda>t. period_averages x ! (t mod period)) [0..<length x])\<rparr>"
  using assms by (simp add: seasonal_decompose_def those_map_Some_id period_def Let_def)

lemma length_detrend: "12 \<le> length x \<Longrightarrow> length (detrend x) = length x"
  by (simp add: detrend_def length_trend)

lemma detrend_defined:
  assumes "12 \<le> length x" and "6 \<le> t" and "t < length x - 6"
  shows "\<exists>v. detrend x ! t = Some v"
proof -
  have t: "t < length x" using assms by simp
  then have "detrend x ! t = minus_opt (Some (x ! t)) (convolution_filter x filt ! t)"
    using assms(1) by (simp add: detrend_def length_trend)
  then show ?thesis
    using assms nth_trend [OF assms(1) t] by (simp add: minus_opt_def)
qed

lemma slice_from_member:
  assumes "k < (length d + p - 1 - i) div p"
  shows "d ! (i + p * k) \<in> set (slice_from i p d)"
  using assms by (auto simp: slice_from_def)

lemma slice_has_known:
  assumes "24 < length x" and "i < 12"
  shows "known (slice_from i 12 (detrend x)) \<noteq> []"
proof -
  have n: "12 \<le> length x" using assms(1) by simp
  define k :: nat where "k = (if i < 6 then 1 else 0)"
  have t1: "6 \<le> i + 12 * k" and t2: "i + 12 * k < length x - 6"
    using assms by (auto simp: k_def)
  have k: "k < (length (detrend x) + 12 - 1 - i) div 12"
    using assms by (auto simp: k_def length_detrend [OF n])
  obtain v where "detrend x ! (i + 12 * k) = Some v"
    using detrend_defined [OF n t1 t2] by blast
  then have "Some v \<in> set (slice_from i 12 (detrend x))"
    using slice_from_member [OF k] by simp
  then show ?thesis by (rule known_nonempty)
qed

lemma seasonal_mean_defined:
  assumes "24 < length x"
  shows "seasonal_mean (detrend x) 12 =
         map Some (map (\<lambda>i. average (known (slice_from i 12 (detrend x)))) [0..<12])"
proof -
  have "map (\<lambda>i. nanmean (slice_from i 12 (detrend x))) [0..<12] =
        map (\<lambda>i. Some (average (known (slice_from i 12 (detrend x))))) [0..<12]"
    by (rule map_cong) (simp_all add: nanmean_def slice_has_known [OF assms])
  then show ?thesis by (simp add: seasonal_mean_def comp_def)
qed

lemma subtract_mean_defined:
  "subtract_mean (map Some raw) = map Some (map (\<lambda>v. v - average raw) raw)"
  by (simp add: subtract_mean_def those_map_Some_id comp_def)

lemma sum_list_centred:
  assumes "raw \<noteq> []"
  shows "sum_list (map (\<lambda>v. v - average raw) raw) = 0"
proof -
  have "sum_list (map (\<lambda>v. v - average raw) raw) =
        sum_list raw - of_nat (length raw) * average raw"
    by (simp add: sum_list_subtractf sum_list_triv)
  also have "of_nat (length raw) * average raw = sum_list raw"
    using assms by (simp add: average_def)
  finally show ?thesis by simp
qed

section \<open>Claims about the decomposition\<close>

text \<open>
  C3, as the code has it. For a series of more than 24 values the decomposition exists,
  its trend has the length of the series, and the trend at index \<open>i\<close> is missing
  exactly when \<open>i\<close> is among the first 6 or the last 6 indices; elsewhere it is the
  centred average over the thirteen values from \<open>i - 6\<close> to \<open>i + 6\<close> in which the
  two end values count half: their weighted sum divided by 12.
\<close>

theorem trend_is_centred_two_by_twelve_average:
  assumes "24 < length x"
  shows "\<exists>d. seasonal_decompose (map Some x) = Inr d \<and>
           length (trend d) = length x \<and>
           (\<forall>i < length x.
              trend d ! i =
                (if i < 6 \<or> length x - 6 \<le> i then None
                 else Some ((x ! (i - 6) / 2 + sum_list (map (\<lambda>j. x ! j) [i - 5..<i + 6]) +
                             x ! (i + 6) / 2) / 12)))"
proof -
  have a: "24 \<le> length x" and b: "12 \<le> length x" using assms by simp_all
  show ?thesis
    unfolding seasonal_decompose_Inr [OF a]
    using length_trend [OF b] nth_trend [OF b] by simp
qed

theorem trend_is_centred_two_by_twelve_average_witness:
  "\<exists>d. seasonal_decompose (map Some (map rat_of_int [1..25])) = Inr d \<and>
       length (trend d) = 25 \<and> trend d ! 5 = None \<and> trend d ! 6 = Some 7 \<and>
       trend d ! 18 = Some 19 \<and> trend d ! 19 = None"
proof -
  let ?x = "map rat_of_int [1..25]"
  have l: "length ?x = 25" by simp
  then have h: "24 < length ?x" by simp
  have a: "(?x ! (6 - 6) / 2 + sum_list (map (\<lambda>j. ?x ! j) [6 - 5..<6 + 6]) + ?x ! (6 + 6) / 2) / 12 = 7"
    by code_simp
  have b: "(?x ! (18 - 6) / 2 + sum_list (map (\<lambda>j. ?x ! j) [18 - 5..<18 + 6]) + ?x ! (18 + 6) / 2) / 12 = 19"
    by code_simp
  obtain d where d: "seasonal_decompose (map Some ?x) = Inr d"
    and n: "length (trend d) = length ?x"
    and t: "\<forall>i < length ?x.
              trend d ! i =
                (if i < 6 \<or> length ?x - 6 \<le> i then None
                 else Some ((?x ! (i - 6) / 2 + sum_list (map (\<lambda>j. ?x ! j) [i - 5..<i + 6]) +
                             ?x ! (i + 6) / 2) / 12))"
    using trend_is_centred_two_by_twelve_average [OF h] by blast
  have "trend d ! 5 = None" using t [rule_format, of 5] unfolding l by simp
  moreover have "trend d ! 6 = Some 7" using t [rule_format, of 6] unfolding l a by simp
  moreover have "trend d ! 18 = Some 19" using t [rule_format, of 18] unfolding l b by simp
  moreover have "trend d ! 19 = None" using t [rule_format, of 19] unfolding l by simp
  ultimately show ?thesis using d n l by simp
qed

text \<open>
  C3 as the specification states it fails: of the 25 values 1, 2, ..., 25 the trend is
  missing at index 19, the sixth from the end, which is neither among the first 6 nor
  among the last 5; the last index with a trend is 18.
\<close>

theorem trend_undefined_at_sixth_from_last:
  "length (trend (projr (seasonal_decompose
      [Some 1, Some 2, Some 3, Some 4, Some 5, Some 6, Some 7, Some 8, Some 9, Some 10,
       Some 11, Some 12, Some 13, Some 14, Some 15, Some 16, Some 17, Some 18, Some 19,
       Some 20, Some 21, Some 22, Some 23, Some 24, Some 25]))) = 25 \<and>
   trend (projr (seasonal_decompose
      [Some 1, Some 2, Some 3, Some 4, Some 5, Some 6, Some 7, Some 8, Some 9, Some 10,
       Some 11, Some 12, Some 13, Some 14, Some 15, Some 16, Some 17, Some 18, Some 19,
       Some 20, Some 21, Some 22, Some 23, Some 24, Some 25])) ! 19 = None \<and>
   trend (projr (seasonal_decompose
      [Some 1, Some 2, Some 3, Some 4, Some 5, Some 6, Some 7, Some 8, Some 9, Some 10,
       Some 11, Some 12, Some 13, Some 14, Some 15, Some 16, Some 17, Some 18, Some 19,
       Some 20, Some 21, Some 22, Some 23, Some 24, Some 25])) ! 18 = Some 19"
  by code_simp

text \<open>
  The seasonal indices in exact arithmetic. For a series of more than 24 values, each
  of the 12 positions of the period has a defined detrended value; the 12 seasonal
  indices are the averages of the defined detrended values at each position, less the
  mean of these 12 averages; they sum to 0; and the seasonal component repeats them
  along the series. What binary64 makes of that sum (its rounding, and the overflow of
  sums of values near the largest double) is beyond this model.
\<close>

lemma exact_seasonal_indices_sum_to_zero:
  assumes "24 < length x"
  shows "\<exists>s d. period_averages x = map Some s \<and> length s = 12 \<and> sum_list s = 0 \<and>
           s = (let raw = map (\<lambda>i. average (known (slice_from i 12 (detrend x)))) [0..<12]
                in map (\<lambda>v. v - average raw) raw) \<and>
           (\<forall>i < 12. known (slice_from i 12 (detrend x)) \<noteq> []) \<and>
           seasonal_decompose (map Some x) = Inr d \<and>
           (\<forall>t < length x. seasonal d ! t = Some (s ! (t mod 12)))"
proof -
  let ?raw = "map (\<lambda>i. average (known (slice_from i 12 (detrend x)))) [0..<12]"
  let ?s = "map (\<lambda>v. v - average ?raw) ?raw"
  have len: "length ?s = 12" by simp
  have "?raw \<noteq> []" by simp
  then have z: "sum_list ?s = 0" by (rule sum_list_centred)
  have p: "period_averages x = map Some ?s"
    unfolding period_averages_def period_def seasonal_mean_defined [OF assms]
    by (rule subtract_mean_defined)
  have k: "\<forall>i < 12. known (slice_from i 12 (detrend x)) \<noteq> []"
    using slice_has_known [OF assms] by blast
  have a: "24 \<le> length x" using assms by simp
  let ?d = "\<lparr>trend = convolution_filter x filt,
          seasonal = map (\<lambda>t. period_averages x ! (t mod period)) [0..<length x],
          resid = map2 minus_opt (detrend x)
                    (map (\<lambda>t. period_averages x ! (t mod period)) [0..<length x])\<rparr>"
  have d: "seasonal_decompose (map Some x) = Inr ?d" by (rule seasonal_decompose_Inr [OF a])
  have t: "\<forall>t < length x. seasonal ?d ! t = Some (?s ! (t mod 12))"
    using len by (simp add: p period_def)
  show ?thesis
    apply (rule exI [of _ ?s])
    apply (rule exI [of _ ?d])
    using p len z k d t by (simp add: Let_def)
qed

section \<open>The decomposition block: lemmas\<close>

lemma those_length: "those xs = Some ys \<Longrightarrow> length ys = length xs"
  by (induction xs arbitrary: ys) (auto split: option.splits)

lemma those_all_Some:
  "\<forall>x \<in> set xs. x \<noteq> None \<Longrightarrow> \<exists>ys. those xs = Some ys \<and> length ys = length xs"
  by (induction xs) auto

lemma length_series_of: "series_of df col = Some s \<Longrightarrow> length s = length (rows df)"
  by (auto simp: series_of_def split: option.splits dest: those_length)

lemma is_finite_not_NaN: "is_finite v \<Longrightarrow> v \<noteq> NaN"
  by (cases v) simp_all

lemma dropna_series_finite: "\<forall>e \<in> set s. is_finite (snd e) \<Longrightarrow> dropna_series s = s"
  by (simp add: dropna_series_def is_finite_not_NaN)

lemma distinct_within_grid:
  assumes "distinct ms" and "ms \<noteq> []"
  shows "length ms \<le> length [Min (set ms)..Max (set ms)]"
proof -
  have "set ms \<subseteq> {Min (set ms)..Max (set ms)}" by auto
  then have "card (set ms) \<le> card {Min (set ms)..Max (set ms)}"
    by (intro card_mono) simp_all
  then show ?thesis using assms(1) by (simp add: distinct_card)
qed

lemma asfreq_distinct:
  assumes "distinct (map fst s)" and "s \<noteq> []"
  shows "\<exists>g. asfreq s = Inr g \<and> length s \<le> length g \<and>
             (\<forall>v \<in> set (map snd g). v = None \<or> (\<exists>e \<in> set s. v = Some (snd e)))"
proof -
  let ?g = "map (\<lambda>m. (m, map_of s m)) [Min (set (map fst s))..Max (set (map fst s))]"
  have a: "asfreq s = Inr ?g" using assms by (simp add: asfreq_def)
  have "length (map fst s) \<le> length [Min (set (map fst s))..Max (set (map fst s))]"
    using assms by (intro distinct_within_grid) simp_all
  then have l: "length s \<le> length ?g" by simp
  have v: "\<forall>v \<in> set (map snd ?g). v = None \<or> (\<exists>e \<in> set s. v = Some (snd e))"
  proof
    fix v assume "v \<in> set (map snd ?g)"
    then obtain m where m: "v = map_of s m" by auto
    show "v = None \<or> (\<exists>e \<in> set s. v = Some (snd e))"
    proof (cases v)
      case None
      then show ?thesis by simp
    next
      case (Some y)
      then have "(m, y) \<in> set s" using m by (simp add: map_of_SomeD)
      then show ?thesis using Some by force
    qed
  qed
  show ?thesis using a l v by blast
qed

lemma finite_values_those:
  assumes "\<forall>v \<in> set vs. v = None \<or> (\<exists>w. v = Some w \<and> is_finite w)"
  shows "\<exists>ts. those (map finite_value vs) = Some ts \<and> length ts = length vs \<and>
              (vs \<noteq> [] \<and> vs ! 0 \<noteq> None \<longrightarrow> ts ! 0 \<noteq> None)"
  using assms
proof (induction vs)
  case Nil
  then show ?case by simp
next
  case (Cons v vs)
  then obtain ts where ts: "those (map finite_value vs) = Some ts" "length ts = length vs"
    by auto
  have "v = None \<or> (\<exists>w. v = Some w \<and> is_finite w)" using Cons.prems by simp
  then obtain t where t: "finite_value v = Some t" "v \<noteq> None \<longrightarrow> t \<noteq> None"
    by (cases v rule: finite_value.cases) auto
  show ?case using ts t by simp
qed

lemma interpolate_and_fill_total:
  assumes "ts \<noteq> []" and "ts ! 0 \<noteq> None"
  shows "\<exists>x. those (interpolate_and_fill ts) = Some x \<and> length x = length ts"
proof -
  have c: "\<forall>v \<in> set (interpolate ts). v \<noteq> None"
    using assms by (rule interpolate_no_gap_after_first)
  then have "interpolate_and_fill ts = interpolate ts"
    by (simp add: interpolate_and_fill_def Let_def fillna_complete)
  then show ?thesis
    using those_all_Some [OF c] by (simp add: length_interpolate)
qed

lemma seasonal_decompose_total:
  assumes "those ts = Some x" and "24 \<le> length x"
  shows "\<exists>d. seasonal_decompose ts = Inr d"
  using assms by (simp add: seasonal_decompose_def period_def Let_def)

lemma decompose_aligned_long:
  assumes "distinct (map fst s)" and "\<forall>e \<in> set s. is_finite (snd e)" and "24 < length s"
  shows "\<exists>g d. asfreq s = Inr g \<and> decompose_aligned (map snd g) None = Decomposed d None"
proof -
  have ne: "s \<noteq> []" using assms(3) by auto
  obtain g where g: "asfreq s = Inr g" and lg: "length s \<le> length g"
    and vg: "\<forall>v \<in> set (map snd g). v = None \<or> (\<exists>e \<in> set s. v = Some (snd e))"
    using asfreq_distinct [OF assms(1) ne] by blast
  have fk: "map snd g \<noteq> [] \<and> map snd g ! 0 \<noteq> None"
    using asfreq_first_known [OF g ne] by simp
  have "\<forall>v \<in> set (map snd g). v = None \<or> (\<exists>w. v = Some w \<and> is_finite w)"
    using vg assms(2) by blast
  then obtain ts where ts: "those (map finite_value (map snd g)) = Some ts"
    and lt: "length ts = length (map snd g)" and t0: "ts ! 0 \<noteq> None"
    using finite_values_those [of "map snd g"] fk by blast
  have tne: "ts \<noteq> []" using lt fk by auto
  obtain x where x: "those (interpolate_and_fill ts) = Some x" and lx: "length x = length ts"
    using interpolate_and_fill_total [OF tne t0] by blast
  have long: "24 < length (interpolate_and_fill ts)"
    using those_length [OF x] lx lt lg assms(3) by simp
  have "24 \<le> length x" using lx lt lg assms(3) by simp
  then obtain d where "seasonal_decompose (interpolate_and_fill ts) = Inr d"
    using seasonal_decompose_total [OF x] by blast
  then have "decompose_aligned (map snd g) None = Decomposed d None"
    using ts long by (simp add: decompose_aligned_def Let_def)
  then show ?thesis using g by blast
qed

lemma main_decomposition_guard:
  assumes "series_of df ''Occupancy_Rate'' = Some s"
    and "distinct (map fst s)" and "\<forall>e \<in> set s. is_finite (snd e)"
  shows "(\<exists>d. main_decomposition True (Some df) False other_processed = Decomposed d None) =
           (24 < length (rows df))"
proof (cases "24 < length (rows df)")
  case True
  have "24 < length s" using True length_series_of [OF assms(1)] by simp
  then obtain g d where "asfreq s = Inr g"
    and "decompose_aligned (map snd g) None = Decomposed d None"
    using decompose_aligned_long [OF assms(2,3)] by blast
  then have "main_decomposition True (Some df) False other_processed = Decomposed d None"
    using True assms(1) dropna_series_finite [OF assms(3)]
    by (simp add: main_decomposition_def aligned_series_def)
  then show ?thesis using True by blast
next
  case False
  then show ?thesis by (simp add: main_decomposition_def)
qed

section \<open>Claims about the decomposition block of \<open>main\<close>\<close>

text \<open>
  C6. The specification says that a decomposition is attempted exactly when the
  aligned series has more than 24 points. The Series of two Observations, January 2020
  and February 2022, has an aligned series of 26 points. In the block of its own region
  nothing is shown for it, whatever the other region is: line 352 (and 437) counts the
  Observations, 2, before the series is aligned. The same Series is decomposed when
  it is the other region of a block, where lines 417 and 498 test the aligned length
  alone.
\<close>

theorem sparse_series_not_decomposed_in_its_block:
  "length (projr (aligned_series
           \<lparr>columns = [Name ''Date'', Name ''Occupancy_Rate'', Name ''Status'', Name ''Region''],
            rows = [[Ts (2020, 1), Val (Fin 50), Str ''A'', Str ''Marne''],
                    [Ts (2022, 2), Val (Fin 60), Str ''A'', Str ''Marne'']]\<rparr>)) = 26 \<and>
   main_decomposition True
     (Some \<lparr>columns = [Name ''Date'', Name ''Occupancy_Rate'', Name ''Status'', Name ''Region''],
            rows = [[Ts (2020, 1), Val (Fin 50), Str ''A'', Str ''Marne''],
                    [Ts (2022, 2), Val (Fin 60), Str ''A'', Str ''Marne'']]\<rparr>)
     other_selected other_processed = NotShown \<and>
   temp_decomposition
     \<lparr>columns = [Name ''Date'', Name ''Occupancy_Rate'', Name ''Status'', Name ''Region''],
      rows = [[Ts (2020, 1), Val (Fin 50), Str ''A'', Str ''Marne''],
              [Ts (2022, 2), Val (Fin 60), Str ''A'', Str ''Marne'']]\<rparr> \<noteq> None"
proof (intro conjI)
  show "length (projr (aligned_series
           \<lparr>columns = [Name ''Date'', Name ''Occupancy_Rate'', Name ''Status'', Name ''Region''],
            rows = [[Ts (2020, 1), Val (Fin 50), Str ''A'', Str ''Marne''],
                    [Ts (2022, 2), Val (Fin 60), Str ''A'', Str ''Marne'']]\<rparr>)) = 26"
    by code_simp
  show "main_decomposition True
     (Some \<lparr>columns = [Name ''Date'', Name ''Occupancy_Rate'', Name ''Status'', Name ''Region''],
            rows = [[Ts (2020, 1), Val (Fin 50), Str ''A'', Str ''Marne''],
                    [Ts (2022, 2), Val (Fin 60), Str ''A'', Str ''Marne'']]\<rparr>)
     other_selected other_processed = NotShown"
    by (simp add: main_decomposition_def)
  show "temp_decomposition
     \<lparr>columns = [Name ''Date'', Name ''Occupancy_Rate'', Name ''Status'', Name ''Region''],
      rows = [[Ts (2020, 1), Val (Fin 50), Str ''A'', Str ''Marne''],
              [Ts (2022, 2), Val (Fin 60), Str ''A'', Str ''Marne'']]\<rparr> \<noteq> None"
    by code_simp
qed

end
